theory Spec2Isabelle
  imports Complex_Main "HOL-Library.Multiset"
begin

section \<open>Market orders of the launch kit: \<open>src/util/orders.ts\<close>\<close>

text \<open>
  The theory embeds the synchronous routines of \<open>orders.ts\<close>: \<open>buildMarketOrders\<close>,
  \<open>sumTakerAssetFillableOrders\<close>, \<open>calculateWorstCaseProtocolFee\<close> and
  \<open>isDutchAuction\<close>.

  A finite \<open>BigNumber\<close> is a rational number: \<open>plus\<close>, \<open>minus\<close> and \<open>multipliedBy\<close> are
  exact on finite values, and the comparisons are those of the rationals. Every amount
  that enters a routine is finite. Only \<open>div\<close> can leave the finite values (a zero
  divisor gives \<open>NaN\<close> or an infinity); the valuator, the one routine that divides, computes
  in \<open>bignum\<close>, where \<open>None\<close> stands for any of \<open>NaN\<close>, \<open>Infinity\<close> and \<open>-Infinity\<close>.
\<close>

subsection \<open>Data\<close>

datatype OrderSide = Sell | Buy

record Order =
  makerAssetData :: string
  takerAssetData :: string
  makerAssetAmount :: rat
  takerAssetAmount :: rat

record SignedOrder = Order +
  signature :: string

text \<open>
  \<open>UIOrder\<close>: the field \<open>size\<close> is \<open>size_uo\<close> here. \<open>filled\<close> is a \<open>BigNumber\<close> or
  \<open>null\<close>; the test \<open>if (order.filled)\<close> is true of every \<open>BigNumber\<close> object, zero included.
\<close>

record UIOrder =
  rawOrder :: SignedOrder
  price :: rat
  size_uo :: rat
  filled :: "rat option"

record BuildMarketOrderParams =
  amount :: rat
  orders :: "UIOrder list"

text \<open>
  \<open>InvalidArgument\<close> is the \<open>Error\<close> thrown at line 167. \<open>UnknownToken\<close> is the failure of
  the token lookup. \<open>TypeError\<close> is what a method call on \<open>undefined\<close> raises, where an
  array is read out of range.
\<close>

datatype error = InvalidArgument | UnknownToken | TypeError

text \<open>
  The collaborators that \<open>orders.ts\<close> imports from \<open>known_tokens\<close> and \<open>tokens\<close> are
  parameters: \<open>tokenDecimals d\<close> is \<open>getKnownTokens().getTokenByAssetData(d).decimals\<close>,
  \<open>None\<close> when the lookup throws; the two conversions are arbitrary functions of an amount
  and a number of decimals. The argument of \<open>unitsInTokenAmount\<close> is the decimal string of
  a \<open>BigNumber\<close>, which denotes the same rational.
\<close>

record collaborators =
  tokenDecimals :: "string \<Rightarrow> nat option"
  tokenAmountInUnitsToBigNumber :: "rat \<Rightarrow> nat \<Rightarrow> rat"
  unitsInTokenAmount :: "rat \<Rightarrow> nat \<Rightarrow> rat"

text \<open>
  Modelled from the spec: \<open>ZERO\<close>, a constant of \<open>common/constants\<close>, which is not among
  the sources. The allocator accumulates \<open>filledAmount\<close> starting at 0, and the valuator
  returns the additive identity on empty input.
\<close>

definition ZERO :: rat where
  "ZERO = 0"

subsection \<open>Sorting\<close>

text \<open>
  \<open>Array.prototype.sort\<close> with a comparator is a stable sort (ECMAScript 2019): \<open>js_sort\<close>
  is the stable insertion sort, an element going before the first one that the comparator
  does not put before it.
\<close>

definition comparedTo :: "rat \<Rightarrow> rat \<Rightarrow> int" where
  "comparedTo a b = (if a < b then - 1 else if b < a then 1 else 0)"

fun js_insert :: "('a \<Rightarrow> 'a \<Rightarrow> int) \<Rightarrow> 'a \<Rightarrow> 'a list \<Rightarrow> 'a list" where
  "js_insert cmp x [] = [x]"
| "js_insert cmp x (y # ys) = (if cmp x y \<le> 0 then x # y # ys else y # js_insert cmp x ys)"

definition js_sort :: "('a \<Rightarrow> 'a \<Rightarrow> int) \<Rightarrow> 'a list \<Rightarrow> 'a list" where
  "js_sort cmp xs = foldr (js_insert cmp) xs []"

text \<open>The comparator of lines 119 to 125.\<close>

definition compareOrders :: "OrderSide \<Rightarrow> UIOrder \<Rightarrow> UIOrder \<Rightarrow> int" where
  "compareOrders side a b =
     (if side = Buy then comparedTo (price a) (price b) else comparedTo (price b) (price a))"

subsection \<open>\<open>buildMarketOrders\<close>\<close>

text \<open>
  The variables of the loop (a variable that bears the name of a field has a prime
  throughout). \<open>recorded\<close> is a history variable: it receives each value at
  the moment the source pushes it onto \<open>amounts\<close> (lines 139 and 142) and nothing reads it.
\<close>

record fill_state =
  ordersToFill :: "SignedOrder list"
  amounts :: "rat list"
  filledAmount :: rat
  recorded :: "rat list"

text \<open>Lines 134 to 137.\<close>

definition available_of :: "UIOrder \<Rightarrow> rat" where
  "available_of order = (case filled order of None \<Rightarrow> size_uo order | Some f \<Rightarrow> size_uo order - f)"

text \<open>Lines 138 to 144.\<close>

definition record_fill :: "rat \<Rightarrow> rat \<Rightarrow> fill_state \<Rightarrow> fill_state" where
  "record_fill amount' available st =
     (if filledAmount st + available > amount'
      then st\<lparr>amounts := amounts st @ [amount' - filledAmount st],
              filledAmount := amount',
              recorded := recorded st @ [amount' - filledAmount st]\<rparr>
      else st\<lparr>amounts := amounts st @ [available],
              filledAmount := filledAmount st + available,
              recorded := recorded st @ [available]\<rparr>)"

text \<open>The conversion of lines 150 and 151, applied to one amount.\<close>

definition buy_amount :: "collaborators \<Rightarrow> UIOrder \<Rightarrow> nat \<Rightarrow> nat \<Rightarrow> rat \<Rightarrow> rat" where
  "buy_amount env order makerTokenDecimals takerTokenDecimals a =
     unitsInTokenAmount env
       (tokenAmountInUnitsToBigNumber env a makerTokenDecimals * price order) takerTokenDecimals"

text \<open>Lines 146 to 152: the body of \<open>if (side === OrderSide.Buy)\<close>.\<close>

definition convert_fill :: "collaborators \<Rightarrow> UIOrder \<Rightarrow> nat \<Rightarrow> fill_state \<Rightarrow> error + fill_state" where
  "convert_fill env order i st =
     (case tokenDecimals env (makerAssetData (rawOrder order)) of
        None \<Rightarrow> Inl UnknownToken
      | Some makerTokenDecimals \<Rightarrow>
          (case tokenDecimals env (takerAssetData (rawOrder order)) of
             None \<Rightarrow> Inl UnknownToken
           | Some takerTokenDecimals \<Rightarrow>
               if i < length (amounts st)
               then Inr (st\<lparr>amounts := (amounts st)
                      [i := buy_amount env order makerTokenDecimals takerTokenDecimals (amounts st ! i)]\<rparr>)
               else Inl TypeError))"

text \<open>Lines 131 to 152: one turn of the loop, for the candidate at index \<open>i\<close>.\<close>

definition visit :: "collaborators \<Rightarrow> OrderSide \<Rightarrow> rat \<Rightarrow> UIOrder \<Rightarrow> nat \<Rightarrow> fill_state \<Rightarrow> error + fill_state" where
  "visit env side amount' order i st =
     (let st1 = st\<lparr>ordersToFill := ordersToFill st @ [rawOrder order]\<rparr>;
          st2 = record_fill amount' (available_of order) st1
      in if side = Buy then convert_fill env order i st2 else Inr st2)"

text \<open>Line 130: the loop from index \<open>i\<close> on.\<close>

function fill_loop :: "collaborators \<Rightarrow> OrderSide \<Rightarrow> rat \<Rightarrow> UIOrder list \<Rightarrow> nat \<Rightarrow> fill_state \<Rightarrow> error + fill_state" where
  "fill_loop env side amount' sortedOrders i st =
     (if i < length sortedOrders \<and> filledAmount st < amount'
      then (case visit env side amount' (sortedOrders ! i) i st of
              Inl e \<Rightarrow> Inl e
            | Inr st' \<Rightarrow> fill_loop env side amount' sortedOrders (Suc i) st')
      else Inr st)"
  by pat_completeness auto
termination
  by (relation "measure (\<lambda>(env, side, amount', sortedOrders, i, st). length sortedOrders - i)") auto

definition initial_state :: fill_state where
  "initial_state = \<lparr>ordersToFill = [], amounts = [], filledAmount = ZERO, recorded = []\<rparr>"

text \<open>Lines 119 to 125: the array that \<open>orders.sort\<close> leaves, and returns.\<close>

definition sortedOrders_of :: "OrderSide \<Rightarrow> UIOrder list \<Rightarrow> UIOrder list" where
  "sortedOrders_of side os = js_sort (compareOrders side) os"

text \<open>
  Lines 127 to 153: the state in which the loop ends, or the error that ends it. The loop
  starts with both arrays empty and \<open>filledAmount\<close> at \<open>ZERO\<close> (\<open>initial_state\<close>).
\<close>

definition run_fill :: "collaborators \<Rightarrow> BuildMarketOrderParams \<Rightarrow> OrderSide \<Rightarrow> error + fill_state" where
  "run_fill env params side =
     fill_loop env side (amount params) (sortedOrders_of side (orders params)) 0 initial_state"

text \<open>\<open>integerValue(BigNumber.ROUND_CEIL)\<close>.\<close>

definition round_ceil :: "rat \<Rightarrow> rat" where
  "round_ceil a = of_int \<lceil>a\<rceil>"

text \<open>
  \<open>buildMarketOrders\<close>. \<open>orders.sort\<close> sorts the array \<open>params.orders\<close> in place and returns
  that same array, so a call has two results: the contents of the caller's array
  \<open>params.orders\<close> after the call (the first component), and the returned triple or the
  error thrown (the second).
\<close>

definition buildMarketOrders ::
  "collaborators \<Rightarrow> BuildMarketOrderParams \<Rightarrow> OrderSide
     \<Rightarrow> UIOrder list \<times> (error + SignedOrder list \<times> rat list \<times> bool)" where
  "buildMarketOrders env params side =
     (sortedOrders_of side (orders params),
      (case run_fill env params side of
         Inl e \<Rightarrow> Inl e
       | Inr st \<Rightarrow>
           (let canBeFilled = (filledAmount st = amount params);
                roundedAmounts = map round_ceil (amounts st)
            in Inr (ordersToFill st, roundedAmounts, canBeFilled))))"

subsection \<open>\<open>sumTakerAssetFillableOrders\<close>\<close>

text \<open>
  A \<open>BigNumber\<close> that may not be finite. \<open>div\<close> rounds the quotient to \<open>DECIMAL_PLACES\<close>
  decimal places, half away from zero (\<open>ROUND_HALF_UP\<close>, the rounding mode that the
  library starts with); \<open>DECIMAL_PLACES\<close> is set outside \<open>orders.ts\<close> and is a parameter.
\<close>

type_synonym bignum = "rat option"

definition bn_plus :: "bignum \<Rightarrow> bignum \<Rightarrow> bignum" where
  "bn_plus a b = (case (a, b) of (Some x, Some y) \<Rightarrow> Some (x + y) | _ \<Rightarrow> None)"

definition bn_multipliedBy :: "bignum \<Rightarrow> bignum \<Rightarrow> bignum" where
  "bn_multipliedBy a b = (case (a, b) of (Some x, Some y) \<Rightarrow> Some (x * y) | _ \<Rightarrow> None)"

definition round_half_up :: "nat \<Rightarrow> rat \<Rightarrow> rat" where
  "round_half_up dp q = sgn q * of_int \<lfloor>\<bar>q\<bar> * 10 ^ dp + 1 / 2\<rfloor> / 10 ^ dp"

definition bn_div :: "nat \<Rightarrow> rat \<Rightarrow> rat \<Rightarrow> bignum" where
  "bn_div dp x y = (if y = 0 then None else Some (round_half_up dp (x / y)))"

text \<open>
  Lines 172 to 176: \<open>reduce\<close> from \<open>index\<close> on, \<open>sum_t\<close> being the accumulator \<open>sum\<close>. Reading
  \<open>amounts\<close> out of range gives \<open>undefined\<close>, whose \<open>multipliedBy\<close> is a \<open>TypeError\<close>.
\<close>

fun reduce_orders ::
  "nat \<Rightarrow> OrderSide \<Rightarrow> rat list \<Rightarrow> 'a Order_scheme list \<Rightarrow> nat \<Rightarrow> bignum \<Rightarrow> error + bignum" where
  "reduce_orders dp side amounts' [] index sum_t = Inr sum_t"
| "reduce_orders dp side amounts' (order # rest) index sum_t =
     (if index < length amounts'
      then (let price' = (if side = Buy then Some 1
                          else bn_div dp (makerAssetAmount order) (takerAssetAmount order))
            in reduce_orders dp side amounts' rest (Suc index)
                 (bn_plus sum_t (bn_multipliedBy (Some (amounts' ! index)) price')))
      else Inl TypeError)"

definition sumTakerAssetFillableOrders ::
  "nat \<Rightarrow> OrderSide \<Rightarrow> 'a Order_scheme list \<Rightarrow> rat list \<Rightarrow> error + bignum" where
  "sumTakerAssetFillableOrders dp side ordersToFill' amounts' =
     (if length ordersToFill' \<noteq> length amounts' then Inl InvalidArgument
      else if length ordersToFill' = 0 then Inr (Some ZERO)
      else reduce_orders dp side amounts' ordersToFill' 0 (Some ZERO))"

subsection \<open>\<open>calculateWorstCaseProtocolFee\<close> and \<open>isDutchAuction\<close>\<close>

text \<open>
  \<open>orders.length * PROTOCOL_FEE_MULTIPLIER\<close> is a product of two numbers of JavaScript,
  which are binary floating-point numbers. Of two natural numbers it is the exact product
  as long as that is at most \<open>2 ^ 53\<close>; beyond, the product is rounded and its conversion
  to a \<open>BigNumber\<close> goes through its shortest decimal string: the embedding does not
  represent those values, and \<open>None\<close> says so.
\<close>

definition number_times :: "nat \<Rightarrow> nat \<Rightarrow> nat option" where
  "number_times a b = (if a * b \<le> 2 ^ 53 then Some (a * b) else None)"

text \<open>\<open>PROTOCOL_FEE_MULTIPLIER\<close> is a constant of \<open>common/constants\<close>: a parameter here.\<close>

definition calculateWorstCaseProtocolFee :: "nat \<Rightarrow> 'a list \<Rightarrow> rat \<Rightarrow> rat option" where
  "calculateWorstCaseProtocolFee PROTOCOL_FEE_MULTIPLIER orders' gasPrice =
     (case number_times (length orders') PROTOCOL_FEE_MULTIPLIER of
        None \<Rightarrow> None
      | Some n \<Rightarrow> Some (of_nat n * gasPrice))"

definition isDutchAuction :: "SignedOrder \<Rightarrow> bool" where
  "isDutchAuction order = False"

subsection \<open>Vocabulary of the properties\<close>

text \<open>
  For the taker of a side, the price \<open>p\<close> is no worse than \<open>q\<close>, or better than \<open>q\<close>: a
  buyer wants the low prices, a seller the high ones.
\<close>

definition no_worse :: "OrderSide \<Rightarrow> rat \<Rightarrow> rat \<Rightarrow> bool" where
  "no_worse side p q = (if side = Buy then p \<le> q else q \<le> p)"

definition better :: "OrderSide \<Rightarrow> rat \<Rightarrow> rat \<Rightarrow> bool" where
  "better side p q = (if side = Buy then p < q else q < p)"

text \<open>Both lookups of line 148 and line 149 succeed for the candidate.\<close>

definition tokens_known :: "collaborators \<Rightarrow> UIOrder \<Rightarrow> bool" where
  "tokens_known env c \<longleftrightarrow>
     tokenDecimals env (makerAssetData (rawOrder c)) \<noteq> None
     \<and> tokenDecimals env (takerAssetData (rawOrder c)) \<noteq> None"

subsection \<open>Invariants of the loop\<close>

text \<open>
  \<open>converted\<close>: after \<open>k\<close> turns, \<open>amounts\<close> holds the recorded values themselves on the Sell
  side and their conversions on the Buy side. \<open>exhausting\<close>: after \<open>k\<close> turns in which no
  candidate was cut, the first \<open>k\<close> candidates are taken whole.
\<close>

definition converted :: "collaborators \<Rightarrow> OrderSide \<Rightarrow> UIOrder list \<Rightarrow> nat \<Rightarrow> fill_state \<Rightarrow> bool" where
  "converted env side srt k s \<longleftrightarrow>
     k \<le> length srt \<and> length (amounts s) = k \<and> length (recorded s) = k
     \<and> ordersToFill s = map rawOrder (take k srt)
     \<and> (side = Sell \<longrightarrow> amounts s = recorded s)
     \<and> (side = Buy \<longrightarrow> (\<forall>i<k. \<exists>md td.
            tokenDecimals env (makerAssetData (rawOrder (srt ! i))) = Some md
          \<and> tokenDecimals env (takerAssetData (rawOrder (srt ! i))) = Some td
          \<and> amounts s ! i = buy_amount env (srt ! i) md td (recorded s ! i)))"

definition exhausting :: "UIOrder list \<Rightarrow> nat \<Rightarrow> fill_state \<Rightarrow> bool" where
  "exhausting srt k s \<longleftrightarrow>
     k \<le> length srt \<and> ordersToFill s = map rawOrder (take k srt)
     \<and> recorded s = map available_of (take k srt)
     \<and> filledAmount s = sum_list (map available_of (take k srt))"

subsection \<open>Concrete inputs\<close>

text \<open>
  Two candidates over one pair of tokens, with the conversions by powers of ten, on which the
  theorems below are instantiated.
\<close>

definition demo_decimals :: "string \<Rightarrow> nat option" where
  "demo_decimals d = (if d = ''A'' then Some 2 else if d = ''B'' then Some 1 else None)"

definition demo_env :: collaborators where
  "demo_env = \<lparr>tokenDecimals = demo_decimals,
     tokenAmountInUnitsToBigNumber = (\<lambda>a d. a / 10 ^ d),
     unitsInTokenAmount = (\<lambda>u d. u * 10 ^ d)\<rparr>"

definition demo_order :: "string \<Rightarrow> SignedOrder" where
  "demo_order s = \<lparr>makerAssetData = ''A'', takerAssetData = ''B'',
     makerAssetAmount = 10, takerAssetAmount = 4, signature = s\<rparr>"

definition cand_dear :: UIOrder where
  "cand_dear = \<lparr>rawOrder = demo_order ''s'', price = 3, size_uo = 80, filled = None\<rparr>"

definition cand_cheap :: UIOrder where
  "cand_cheap = \<lparr>rawOrder = demo_order ''t'', price = 2, size_uo = 45, filled = Some 5\<rparr>"

definition demo_params :: "rat \<Rightarrow> BuildMarketOrderParams" where
  "demo_params a = \<lparr>amount = a, orders = [cand_dear, cand_cheap]\<rparr>"

section \<open>Auxiliary facts\<close>

declare fill_loop.simps [simp del]

declare ZERO_def [simp]

lemmas demo_defs = demo_decimals_def demo_env_def demo_order_def cand_dear_def cand_cheap_def
  demo_params_def

lemmas alloc_defs = run_fill_def sortedOrders_of_def js_sort_def compareOrders_def comparedTo_def
  visit_def record_fill_def convert_fill_def buy_amount_def available_of_def initial_state_def
  fill_loop.simps

subsection \<open>The sort\<close>

lemma js_insert_Buy: "js_insert (compareOrders Buy) x ys = insort_key price x ys"
  by (induction ys) (auto simp: compareOrders_def comparedTo_def)

lemma js_insert_Sell: "js_insert (compareOrders Sell) x ys = insort_key (\<lambda>c. - price c) x ys"
  by (induction ys) (auto simp: compareOrders_def comparedTo_def)

lemma sortedOrders_of_Buy: "sortedOrders_of Buy os = sort_key price os"
  by (induction os) (simp_all add: sortedOrders_of_def js_sort_def js_insert_Buy)

lemma sortedOrders_of_Sell: "sortedOrders_of Sell os = sort_key (\<lambda>c. - price c) os"
  by (induction os) (simp_all add: sortedOrders_of_def js_sort_def js_insert_Sell)

lemma mset_sortedOrders_of: "mset (sortedOrders_of side os) = mset os"
  by (cases side) (simp_all add: sortedOrders_of_Buy sortedOrders_of_Sell)

lemma length_sortedOrders_of: "length (sortedOrders_of side os) = length os"
  by (cases side) (simp_all add: sortedOrders_of_Buy sortedOrders_of_Sell)

lemma sorted_sortedOrders_of:
  "sorted_wrt (\<lambda>a b. no_worse side (price a) (price b)) (sortedOrders_of side os)"
proof (cases side)
  case Buy
  have "sorted (map price (sort_key price os))" by (rule sorted_sort_key)
  then show ?thesis
    by (simp add: Buy sortedOrders_of_Buy no_worse_def sorted_map)
next
  case Sell
  have "sorted (map (\<lambda>c. - price c) (sort_key (\<lambda>c. - price c) os))" by (rule sorted_sort_key)
  then show ?thesis
    by (simp add: Sell sortedOrders_of_Sell no_worse_def sorted_map)
qed

lemma stable_sortedOrders_of:
  "filter (\<lambda>c. price c = p) (sortedOrders_of side os) = filter (\<lambda>c. price c = p) os"
proof (cases side)
  case Buy
  then show ?thesis by (simp add: sortedOrders_of_Buy sort_key_stable)
next
  case Sell
  have "filter (\<lambda>c. - price c = - p) (sort_key (\<lambda>c. - price c) os) = filter (\<lambda>c. - price c = - p) os"
    by (rule sort_key_stable)
  then show ?thesis by (simp add: Sell sortedOrders_of_Sell)
qed

lemma sum_available_sortedOrders_of:
  "sum_list (map available_of (sortedOrders_of side os)) = sum_list (map available_of os)"
proof -
  have "sum_mset (image_mset available_of (mset (sortedOrders_of side os)))
      = sum_mset (image_mset available_of (mset os))"
    by (simp add: mset_sortedOrders_of)
  then show ?thesis by (simp add: sum_mset_sum_list flip: mset_map)
qed

lemma set_sortedOrders_of: "set (sortedOrders_of side os) = set os"
  by (metis mset_sortedOrders_of set_mset_mset)

lemma sortedOrders_of_id:
  assumes "sorted_wrt (\<lambda>a b. no_worse side (price a) (price b)) os"
  shows "sortedOrders_of side os = os"
proof (cases side)
  case Buy
  with assms have "sorted (map price os)" by (simp add: no_worse_def sorted_map)
  then show ?thesis by (simp add: Buy sortedOrders_of_Buy sort_key_id_if_sorted)
next
  case Sell
  with assms have "sorted (map (\<lambda>c. - price c) os)" by (simp add: no_worse_def sorted_map)
  then show ?thesis by (simp add: Sell sortedOrders_of_Sell sort_key_id_if_sorted)
qed

lemma fst_buildMarketOrders:
  "fst (buildMarketOrders env params side) = sortedOrders_of side (orders params)"
  by (simp add: buildMarketOrders_def)

subsection \<open>The loop\<close>

lemma fill_loop_rule:
  assumes "fill_loop env side amt srt i st = Inr st'"
    and "I i st"
    and "\<And>j s s'. I j s \<Longrightarrow> j < length srt \<Longrightarrow> filledAmount s < amt \<Longrightarrow>
           visit env side amt (srt ! j) j s = Inr s' \<Longrightarrow> I (Suc j) s'"
  shows "\<exists>k. I k st' \<and> \<not> (k < length srt \<and> filledAmount st' < amt)"
  using assms
proof (induction env side amt srt i st rule: fill_loop.induct)
  case (1 env side amt srt i st)
  show ?case
  proof (cases "i < length srt \<and> filledAmount st < amt")
    case False
    with "1.prems"(1) have "st' = st" by (simp add: fill_loop.simps)
    with False "1.prems"(2) show ?thesis by blast
  next
    case True
    with "1.prems"(1) obtain s1 where v: "visit env side amt (srt ! i) i st = Inr s1"
      and r: "fill_loop env side amt srt (Suc i) s1 = Inr st'"
      by (auto simp: fill_loop.simps [of env side amt srt i st] split: sum.splits)
    have s1: "I (Suc i) s1" using "1.prems"(3) [OF "1.prems"(2) _ _ v] True by blast
    show ?thesis
      by (rule "1.IH" [OF True v r s1]) (rule "1.prems"(3))
  qed
qed

lemma record_fill_fields:
  "ordersToFill (record_fill amt av s) = ordersToFill s"
  "recorded (record_fill amt av s) = recorded s @ [min (amt - filledAmount s) av]"
  "amounts (record_fill amt av s) = amounts s @ [min (amt - filledAmount s) av]"
  "filledAmount (record_fill amt av s) = filledAmount s + min (amt - filledAmount s) av"
  by (auto simp: record_fill_def min_def)

lemma visit_Sell:
  "visit env Sell amt c i s =
     Inr (record_fill amt (available_of c) (s\<lparr>ordersToFill := ordersToFill s @ [rawOrder c]\<rparr>))"
  by (simp add: visit_def)

lemma visit_fields:
  assumes "visit env side amt c i s = Inr s'"
  shows "ordersToFill s' = ordersToFill s @ [rawOrder c]"
    and "recorded s' = recorded s @ [min (amt - filledAmount s) (available_of c)]"
    and "filledAmount s' = filledAmount s + min (amt - filledAmount s) (available_of c)"
    and "length (amounts s') = Suc (length (amounts s))"
  using assms
  by (auto simp: visit_def convert_fill_def record_fill_fields Let_def
      split: if_splits option.splits)

lemma visit_amounts_Sell:
  assumes "visit env Sell amt c i s = Inr s'"
  shows "amounts s' = amounts s @ [min (amt - filledAmount s) (available_of c)]"
  using assms by (auto simp: visit_Sell record_fill_fields)

lemma visit_amounts_Buy:
  assumes "visit env Buy amt c i s = Inr s'" and "length (amounts s) = i"
  shows "\<exists>md td. tokenDecimals env (makerAssetData (rawOrder c)) = Some md
           \<and> tokenDecimals env (takerAssetData (rawOrder c)) = Some td
           \<and> amounts s' = amounts s @ [buy_amount env c md td (min (amt - filledAmount s) (available_of c))]"
  using assms
  by (auto simp: visit_def convert_fill_def record_fill_fields Let_def
      split: if_splits option.splits)

lemma buildMarketOrders_Inr:
  "run_fill env params side = Inr st \<Longrightarrow>
   snd (buildMarketOrders env params side)
     = Inr (ordersToFill st, map round_ceil (amounts st), filledAmount st = amount params)"
  by (simp add: buildMarketOrders_def)

lemma fill_loop_conserves:
  assumes "fill_loop env side amt srt i st = Inr st'"
    and "filledAmount st = sum_list (recorded st)" and "filledAmount st \<le> amt"
  shows "filledAmount st' = sum_list (recorded st') \<and> filledAmount st' \<le> amt"
proof -
  let ?I = "\<lambda>(k::nat) s. filledAmount s = sum_list (recorded s) \<and> filledAmount s \<le> amt"
  have "\<exists>k. ?I k st' \<and> \<not> (k < length srt \<and> filledAmount st' < amt)"
  proof (rule fill_loop_rule [where I = ?I, OF assms(1)])
    show "?I i st" using assms(2,3) by simp
  next
    fix j s s'
    assume "?I j s" and "visit env side amt (srt ! j) j s = Inr s'"
    then show "?I (Suc j) s'"
      by (auto simp: visit_fields(2,3))
  qed
  then show ?thesis by blast
qed

lemma run_demo_Buy:
  "run_fill demo_env (demo_params 100) Buy
     = Inr \<lparr>ordersToFill = [demo_order ''t'', demo_order ''s''], amounts = [8, 18],
            filledAmount = 100, recorded = [40, 60]\<rparr>"
  by (simp add: demo_defs alloc_defs)

lemma fill_loop_prefix:
  assumes "fill_loop env side amt srt i st = Inr st'"
    and "i \<le> length srt" and "ordersToFill st = map rawOrder (take i srt)"
  shows "\<exists>k\<le>length srt. ordersToFill st' = map rawOrder (take k srt)"
proof -
  let ?I = "\<lambda>k s. k \<le> length srt \<and> ordersToFill s = map rawOrder (take k srt)"
  have "\<exists>k. ?I k st' \<and> \<not> (k < length srt \<and> filledAmount st' < amt)"
  proof (rule fill_loop_rule [where I = ?I, OF assms(1)])
    show "?I i st" using assms(2,3) by simp
  next
    fix j s s'
    assume "?I j s" and "j < length srt" and "visit env side amt (srt ! j) j s = Inr s'"
    then show "?I (Suc j) s'"
      by (simp add: visit_fields(1) take_Suc_conv_app_nth)
  qed
  then show ?thesis by blast
qed

lemma converted_step:
  assumes "converted env side srt j s" and "j < length srt"
    and "visit env side amt (srt ! j) j s = Inr s'"
  shows "converted env side srt (Suc j) s'"
proof (cases side)
  case Sell
  with assms show ?thesis
    by (simp add: converted_def visit_fields [OF assms(3)] visit_amounts_Sell take_Suc_conv_app_nth)
next
  case Buy
  from assms have len: "length (amounts s) = j" "length (recorded s) = j"
    by (simp_all add: converted_def)
  from assms(3) Buy len obtain md td where
    md: "tokenDecimals env (makerAssetData (rawOrder (srt ! j))) = Some md"
    and td: "tokenDecimals env (takerAssetData (rawOrder (srt ! j))) = Some td"
    and am: "amounts s' = amounts s @ [buy_amount env (srt ! j) md td (min (amt - filledAmount s) (available_of (srt ! j)))]"
    using visit_amounts_Buy [of env amt "srt ! j" j s s'] by auto
  have rec: "recorded s' = recorded s @ [min (amt - filledAmount s) (available_of (srt ! j))]"
    by (rule visit_fields(2) [OF assms(3)])
  have "\<exists>md td. tokenDecimals env (makerAssetData (rawOrder (srt ! i))) = Some md
          \<and> tokenDecimals env (takerAssetData (rawOrder (srt ! i))) = Some td
          \<and> amounts s' ! i = buy_amount env (srt ! i) md td (recorded s' ! i)"
    if "i < Suc j" for i
  proof (cases "i < j")
    case True
    with assms(1) Buy len show ?thesis
      by (simp add: converted_def am rec nth_append)
  next
    case False
    with that have "i = j" by simp
    with md td len show ?thesis
      by (simp add: am rec nth_append)
  qed
  with assms(1,2) Buy len show ?thesis
    by (simp add: converted_def visit_fields [OF assms(3)] take_Suc_conv_app_nth)
qed

lemma fill_loop_converted:
  assumes "fill_loop env side amt srt i st = Inr st'" and "converted env side srt i st"
  shows "\<exists>k. converted env side srt k st'"
proof -
  have "\<exists>k. converted env side srt k st' \<and> \<not> (k < length srt \<and> filledAmount st' < amt)"
    by (rule fill_loop_rule [where I = "converted env side srt", OF assms(1) assms(2)])
       (rule converted_step)
  then show ?thesis by blast
qed

lemma visit_returns:
  assumes "length (amounts s) = i" and "side = Buy \<longrightarrow> tokens_known env c"
  shows "\<exists>s'. visit env side amt c i s = Inr s'"
  using assms
  by (cases side) (auto simp: visit_def convert_fill_def record_fill_fields tokens_known_def Let_def)

lemma fill_loop_returns:
  assumes "length (amounts st) = i" and "side = Buy \<longrightarrow> (\<forall>c\<in>set srt. tokens_known env c)"
  shows "\<exists>st'. fill_loop env side amt srt i st = Inr st'"
  using assms
proof (induction env side amt srt i st rule: fill_loop.induct)
  case (1 env side amt srt i st)
  show ?case
  proof (cases "i < length srt \<and> filledAmount st < amt")
    case False
    then have "fill_loop env side amt srt i st = Inr st"
      by (subst fill_loop.simps) auto
    then show ?thesis by blast
  next
    case True
    then have "side = Buy \<longrightarrow> tokens_known env (srt ! i)"
      using "1.prems"(2) by simp
    with "1.prems"(1) obtain s1 where v: "visit env side amt (srt ! i) i st = Inr s1"
      using visit_returns by blast
    have "length (amounts s1) = Suc i"
      using visit_fields(4) [OF v] "1.prems"(1) by simp
    from "1.IH" [OF True v this "1.prems"(2)] True v show ?thesis
      by (simp add: fill_loop.simps [of env side amt srt i st])
  qed
qed

lemma sum_list_take_le:
  fixes f :: "'a \<Rightarrow> rat"
  assumes "\<forall>x\<in>set xs. 0 \<le> f x"
  shows "sum_list (map f (take n xs)) \<le> sum_list (map f xs)"
proof -
  have "sum_list (map f xs) = sum_list (map f (take n xs)) + sum_list (map f (drop n xs))"
    by (metis append_take_drop_id map_append sum_list_append)
  moreover have "0 \<le> sum_list (map f (drop n xs))"
  proof (rule sum_list_nonneg)
    fix y assume "y \<in> set (map f (drop n xs))"
    then obtain x where "x \<in> set (drop n xs)" and "y = f x" by auto
    with assms show "0 \<le> y" by (auto dest: in_set_dropD)
  qed
  ultimately show ?thesis by simp
qed

lemma exhausting_step:
  assumes "exhausting srt j s" and "j < length srt"
    and "visit env side amt (srt ! j) j s = Inr s'"
    and "\<forall>c\<in>set srt. 0 \<le> available_of c"
    and "sum_list (map available_of srt) < amt"
  shows "exhausting srt (Suc j) s'"
proof -
  have "sum_list (map available_of (take (Suc j) srt)) \<le> sum_list (map available_of srt)"
    by (rule sum_list_take_le [OF assms(4)])
  with assms(1,2,5) have "filledAmount s + available_of (srt ! j) < amt"
    by (simp add: exhausting_def take_Suc_conv_app_nth)
  then have "min (amt - filledAmount s) (available_of (srt ! j)) = available_of (srt ! j)"
    by simp
  with assms(1,2) show ?thesis
    by (simp add: exhausting_def visit_fields [OF assms(3)] take_Suc_conv_app_nth)
qed

lemma fill_loop_exhausts:
  assumes "fill_loop env side amt srt 0 initial_state = Inr st"
    and "\<forall>c\<in>set srt. 0 \<le> available_of c"
    and "sum_list (map available_of srt) < amt"
  shows "ordersToFill st = map rawOrder srt \<and> recorded st = map available_of srt
       \<and> filledAmount st < amt"
proof -
  have "\<exists>k. exhausting srt k st \<and> \<not> (k < length srt \<and> filledAmount st < amt)"
  proof (rule fill_loop_rule [where I = "exhausting srt", OF assms(1)])
    show "exhausting srt 0 initial_state"
      by (simp add: exhausting_def initial_state_def)
  next
    fix j s s'
    assume "exhausting srt j s" "j < length srt" "visit env side amt (srt ! j) j s = Inr s'"
    then show "exhausting srt (Suc j) s'"
      using assms(2,3) by (rule exhausting_step)
  qed
  then obtain k where k: "exhausting srt k st" and stop: "\<not> (k < length srt \<and> filledAmount st < amt)"
    by blast
  have "filledAmount st \<le> sum_list (map available_of srt)"
    using k sum_list_take_le [OF assms(2), of k] by (simp add: exhausting_def)
  with assms(3) have lt: "filledAmount st < amt" by simp
  with stop k have "k = length srt" by (simp add: exhausting_def)
  with k lt show ?thesis by (simp add: exhausting_def)
qed

subsection \<open>The reduction of the valuator, and the product of the fee\<close>

lemma reduce_orders_returns:
  "index + length os \<le> length amts \<Longrightarrow> \<exists>r. reduce_orders dp side amts os index s = Inr r"
  by (induction os arbitrary: index s) (auto simp: Let_def)

lemma reduce_orders_Buy:
  "index + length os \<le> length amts \<Longrightarrow>
   reduce_orders dp Buy amts os index (Some s)
     = Inr (Some (s + sum_list (take (length os) (drop index amts))))"
proof (induction os arbitrary: index s)
  case Nil
  then show ?case by simp
next
  case (Cons order rest)
  then have "index < length amts" by simp
  then have "drop index amts = amts ! index # drop (Suc index) amts"
    by (simp add: Cons_nth_drop_Suc)
  with Cons show ?case
    by (simp add: bn_plus_def bn_multipliedBy_def add.assoc)
qed

lemma number_times_exact:
  assumes "n < 2 ^ 32" and "m \<le> 2 ^ 21"
  shows "number_times n m = Some (n * m)"
proof -
  have "n * m \<le> 2 ^ 32 * 2 ^ 21"
    using assms by (intro mult_mono) simp_all
  then show ?thesis by (simp add: number_times_def)
qed

section \<open>The allocator\<close>

text \<open>
  C1 (conservation). When the requested amount is not negative and the allocator returns,
  the fill amounts as the loop recorded them, before the conversion of the Buy side and
  before the rounding, sum to at most the requested amount; and the flag that the
  allocator returns is true exactly when that sum is the requested amount.
\<close>

theorem C1_conservation:
  assumes "0 \<le> amount params" and "run_fill env params side = Inr st"
  shows "sum_list (recorded st) \<le> amount params
       \<and> snd (buildMarketOrders env params side)
           = Inr (ordersToFill st, map round_ceil (amounts st), sum_list (recorded st) = amount params)"
proof -
  have "filledAmount st = sum_list (recorded st) \<and> filledAmount st \<le> amount params"
    using assms(2) unfolding run_fill_def
    by (rule fill_loop_conserves) (simp_all add: initial_state_def assms(1))
  then show ?thesis
    using buildMarketOrders_Inr [OF assms(2)] by simp
qed

theorem C1_conservation_witness:
  "0 \<le> amount (demo_params 100)
   \<and> run_fill demo_env (demo_params 100) Buy
       = Inr \<lparr>ordersToFill = [demo_order ''t'', demo_order ''s''], amounts = [8, 18],
              filledAmount = 100, recorded = [40, 60]\<rparr>
   \<and> sum_list [40, 60] \<le> amount (demo_params 100)
   \<and> snd (buildMarketOrders demo_env (demo_params 100) Buy)
       = Inr ([demo_order ''t'', demo_order ''s''], [8, 18], True)"
proof -
  have nonneg: "0 \<le> amount (demo_params 100)"
    by (simp add: demo_params_def)
  show ?thesis
    using C1_conservation [OF nonneg run_demo_Buy] run_demo_Buy
    by (simp add: demo_params_def round_ceil_def)
qed

text \<open>
  C2 (best price first). When the allocator returns, the orders it returns are the raw
  orders of a prefix of the candidates in sorted order; the sorted order holds the same
  candidates, goes from the best price to the worst for the side (ascending for Buy,
  descending for Sell) and keeps candidates of one price in the order of the input; and no
  candidate left out has a better price than a chosen one.
\<close>

theorem C2_best_price_first:
  fixes params :: BuildMarketOrderParams and side :: OrderSide
  defines "sorted_cands \<equiv> sortedOrders_of side (orders params)"
  assumes "snd (buildMarketOrders env params side) = Inr (otf, amts, full)"
  shows "mset sorted_cands = mset (orders params)
       \<and> sorted_wrt (\<lambda>a b. no_worse side (price a) (price b)) sorted_cands
       \<and> (\<forall>p. filter (\<lambda>c. price c = p) sorted_cands = filter (\<lambda>c. price c = p) (orders params))
       \<and> (\<exists>k\<le>length sorted_cands. otf = map rawOrder (take k sorted_cands)
            \<and> (\<forall>i j. i < k \<and> k \<le> j \<and> j < length sorted_cands
                  \<longrightarrow> \<not> better side (price (sorted_cands ! j)) (price (sorted_cands ! i))))"
proof -
  have srt: "sorted_wrt (\<lambda>a b. no_worse side (price a) (price b)) sorted_cands"
    unfolding sorted_cands_def by (rule sorted_sortedOrders_of)
  obtain st where st: "run_fill env params side = Inr st" and otf: "otf = ordersToFill st"
    using assms(2) by (auto simp: buildMarketOrders_def split: sum.splits)
  have "\<exists>k\<le>length sorted_cands. ordersToFill st = map rawOrder (take k sorted_cands)"
    using st unfolding run_fill_def sorted_cands_def
    by (rule fill_loop_prefix) (simp_all add: initial_state_def)
  then obtain k where k: "k \<le> length sorted_cands" "otf = map rawOrder (take k sorted_cands)"
    using otf by blast
  have "\<not> better side (price (sorted_cands ! j)) (price (sorted_cands ! i))"
    if "i < k" "k \<le> j" "j < length sorted_cands" for i j
  proof -
    have "no_worse side (price (sorted_cands ! i)) (price (sorted_cands ! j))"
      using sorted_wrt_nth_less [OF srt, of i j] that by simp
    then show ?thesis by (auto simp: no_worse_def better_def split: if_splits)
  qed
  with k have "\<exists>k\<le>length sorted_cands. otf = map rawOrder (take k sorted_cands)
            \<and> (\<forall>i j. i < k \<and> k \<le> j \<and> j < length sorted_cands
                  \<longrightarrow> \<not> better side (price (sorted_cands ! j)) (price (sorted_cands ! i)))"
    by blast
  moreover have "mset sorted_cands = mset (orders params)"
    unfolding sorted_cands_def by (rule mset_sortedOrders_of)
  moreover have "\<forall>p. filter (\<lambda>c. price c = p) sorted_cands = filter (\<lambda>c. price c = p) (orders params)"
    unfolding sorted_cands_def by (simp add: stable_sortedOrders_of)
  ultimately show ?thesis using srt by blast
qed

theorem C2_best_price_first_witness:
  "snd (buildMarketOrders demo_env (demo_params 100) Sell)
     = Inr ([demo_order ''s'', demo_order ''t''], [80, 20], True)
   \<and> (\<exists>k\<le>length (sortedOrders_of Sell (orders (demo_params 100))).
         [demo_order ''s'', demo_order ''t'']
           = map rawOrder (take k (sortedOrders_of Sell (orders (demo_params 100)))))"
proof -
  have run: "snd (buildMarketOrders demo_env (demo_params 100) Sell)
     = Inr ([demo_order ''s'', demo_order ''t''], [80, 20], True)"
    by (simp add: buildMarketOrders_def demo_defs alloc_defs round_ceil_def)
  from C2_best_price_first [OF run] obtain k
    where "k \<le> length (sortedOrders_of Sell (orders (demo_params 100)))"
      and "[demo_order ''s'', demo_order ''t'']
             = map rawOrder (take k (sortedOrders_of Sell (orders (demo_params 100))))"
    by (elim conjE exE)
  with run show ?thesis by (intro conjI exI)
qed

text \<open>
  C3 (conversion of the Buy side). When the allocator returns, on the Buy side the amount
  kept for each visited candidate is the recorded one taken through
  \<open>tokenAmountInUnitsToBigNumber\<close> with the decimals of the maker token, times the price of
  the candidate, through \<open>unitsInTokenAmount\<close> with the decimals of the taker token, both
  decimals looked up from the asset data of the candidate's raw order; on the Sell side the
  amounts kept are the recorded ones. The amounts returned are these, rounded up.
\<close>

theorem C3_buy_conversion:
  fixes params :: BuildMarketOrderParams and side :: OrderSide
  defines "sorted_cands \<equiv> sortedOrders_of side (orders params)"
  assumes "run_fill env params side = Inr st"
  shows "snd (buildMarketOrders env params side)
           = Inr (ordersToFill st, map round_ceil (amounts st), filledAmount st = amount params)
       \<and> ordersToFill st = map rawOrder (take (length (recorded st)) sorted_cands)
       \<and> length (amounts st) = length (recorded st)
       \<and> (side = Sell \<longrightarrow> amounts st = recorded st)
       \<and> (side = Buy \<longrightarrow> (\<forall>i<length (recorded st). \<exists>makerTokenDecimals takerTokenDecimals.
              tokenDecimals env (makerAssetData (rawOrder (sorted_cands ! i))) = Some makerTokenDecimals
            \<and> tokenDecimals env (takerAssetData (rawOrder (sorted_cands ! i))) = Some takerTokenDecimals
            \<and> amounts st ! i
                = unitsInTokenAmount env
                    (tokenAmountInUnitsToBigNumber env (recorded st ! i) makerTokenDecimals
                       * price (sorted_cands ! i))
                    takerTokenDecimals))"
proof -
  have "converted env side sorted_cands 0 initial_state"
    by (simp add: converted_def initial_state_def)
  with assms(2) obtain k where "converted env side sorted_cands k st"
    unfolding run_fill_def sorted_cands_def by (blast dest: fill_loop_converted)
  then show ?thesis
    using buildMarketOrders_Inr [OF assms(2)]
    by (simp add: converted_def buy_amount_def)
qed

theorem C3_buy_conversion_witness:
  "run_fill demo_env (demo_params 100) Buy
     = Inr \<lparr>ordersToFill = [demo_order ''t'', demo_order ''s''], amounts = [8, 18],
            filledAmount = 100, recorded = [40, 60]\<rparr>
   \<and> (8::rat) = unitsInTokenAmount demo_env
                   (tokenAmountInUnitsToBigNumber demo_env 40 2 * price cand_cheap) 1
   \<and> (18::rat) = unitsInTokenAmount demo_env
                    (tokenAmountInUnitsToBigNumber demo_env 60 2 * price cand_dear) 1"
  using C3_buy_conversion [OF run_demo_Buy] run_demo_Buy
  by (simp add: demo_env_def cand_cheap_def cand_dear_def)

text \<open>
  C4 (exhaustion). The candidates are those of the data model: none has \<open>filled\<close> above its
  \<open>size\<close>, so none has a negative available amount. When their available amounts sum to
  less than the requested amount, every call that returns gives the flag false and every
  candidate, in sorted order, each with its whole available amount recorded; and the call
  returns on the Sell side in every case, and on the Buy side whenever the tokens of every
  candidate are known.
\<close>

theorem C4_exhaustion:
  fixes params :: BuildMarketOrderParams and side :: OrderSide
  defines "sorted_cands \<equiv> sortedOrders_of side (orders params)"
  assumes "\<forall>c\<in>set (orders params). 0 \<le> available_of c"
    and "sum_list (map available_of (orders params)) < amount params"
  shows "(\<forall>st. run_fill env params side = Inr st \<longrightarrow>
            snd (buildMarketOrders env params side)
              = Inr (map rawOrder sorted_cands, map round_ceil (amounts st), False)
            \<and> recorded st = map available_of sorted_cands)
       \<and> mset sorted_cands = mset (orders params)
       \<and> ((side = Buy \<longrightarrow> (\<forall>c\<in>set (orders params). tokens_known env c))
            \<longrightarrow> (\<exists>st. run_fill env params side = Inr st))"
proof -
  have "snd (buildMarketOrders env params side)
              = Inr (map rawOrder sorted_cands, map round_ceil (amounts st), False)
            \<and> recorded st = map available_of sorted_cands"
    if st: "run_fill env params side = Inr st" for st
  proof -
    have "ordersToFill st = map rawOrder sorted_cands
        \<and> recorded st = map available_of sorted_cands \<and> filledAmount st < amount params"
      using st assms(2,3) unfolding run_fill_def sorted_cands_def
      by (intro fill_loop_exhausts) (simp_all add: set_sortedOrders_of sum_available_sortedOrders_of)
    with buildMarketOrders_Inr [OF st] show ?thesis by simp
  qed
  moreover have "\<exists>st. run_fill env params side = Inr st"
    if "side = Buy \<longrightarrow> (\<forall>c\<in>set (orders params). tokens_known env c)"
    unfolding run_fill_def using that
    by (intro fill_loop_returns) (simp_all add: initial_state_def set_sortedOrders_of)
  ultimately show ?thesis
    by (simp add: sorted_cands_def mset_sortedOrders_of)
qed

theorem C4_exhaustion_witness:
  "0 \<le> available_of cand_dear \<and> 0 \<le> available_of cand_cheap
   \<and> sum_list (map available_of (orders (demo_params 200))) < amount (demo_params 200)
   \<and> run_fill demo_env (demo_params 200) Sell
       = Inr \<lparr>ordersToFill = [demo_order ''s'', demo_order ''t''], amounts = [80, 40],
              filledAmount = 120, recorded = [80, 40]\<rparr>
   \<and> snd (buildMarketOrders demo_env (demo_params 200) Sell)
       = Inr ([demo_order ''s'', demo_order ''t''], [80, 40], False)"
proof -
  have run: "run_fill demo_env (demo_params 200) Sell
       = Inr \<lparr>ordersToFill = [demo_order ''s'', demo_order ''t''], amounts = [80, 40],
              filledAmount = 120, recorded = [80, 40]\<rparr>"
    by (simp add: demo_defs alloc_defs)
  have av: "\<forall>c\<in>set (orders (demo_params 200)). 0 \<le> available_of c"
    by (simp add: demo_defs available_of_def)
  have total: "sum_list (map available_of (orders (demo_params 200))) < amount (demo_params 200)"
    by (simp add: demo_defs available_of_def)
  let ?st = "\<lparr>ordersToFill = [demo_order ''s'', demo_order ''t''], amounts = [80, 40],
              filledAmount = 120, recorded = [80, 40]\<rparr>"
  from C4_exhaustion [OF av total, of demo_env Sell] run
  have "snd (buildMarketOrders demo_env (demo_params 200) Sell)
       = Inr (map rawOrder (sortedOrders_of Sell (orders (demo_params 200))),
              map round_ceil (amounts ?st), False)"
    by blast
  moreover have "map rawOrder (sortedOrders_of Sell (orders (demo_params 200)))
       = [demo_order ''s'', demo_order ''t'']"
    by (simp add: demo_defs alloc_defs)
  moreover have "map round_ceil (amounts ?st) = [80, 40]"
    by (simp add: round_ceil_def)
  moreover have "0 \<le> available_of cand_dear \<and> 0 \<le> available_of cand_cheap"
    by (simp add: demo_defs available_of_def)
  ultimately show ?thesis
    using run total by simp
qed

text \<open>
  C5 (no mutation), as stated, fails: \<open>orders.sort\<close> sorts the caller's array in place.
\<close>

theorem C5_counterexample:
  "fst (buildMarketOrders demo_env (demo_params 100) Buy) = [cand_cheap, cand_dear]
   \<and> orders (demo_params 100) = [cand_dear, cand_cheap]
   \<and> [cand_cheap, cand_dear] \<noteq> [cand_dear, cand_cheap]"
  by (simp add: buildMarketOrders_def demo_defs alloc_defs)

text \<open>
  C5, amended. After a call the caller's array holds the same candidates, every field of
  each unchanged, in the sorted order of the side, candidates of one price in their former
  order; it is unchanged exactly when it was in that order already. Every order that the
  allocator returns is the raw order of a candidate.
\<close>

theorem C5_sorts_in_place:
  fixes env :: collaborators and params :: BuildMarketOrderParams and side :: OrderSide
  defines "after \<equiv> fst (buildMarketOrders env params side)"
  shows "mset after = mset (orders params)
       \<and> sorted_wrt (\<lambda>a b. no_worse side (price a) (price b)) after
       \<and> (\<forall>p. filter (\<lambda>c. price c = p) after = filter (\<lambda>c. price c = p) (orders params))
       \<and> (after = orders params
            \<longleftrightarrow> sorted_wrt (\<lambda>a b. no_worse side (price a) (price b)) (orders params))
       \<and> (\<forall>otf amts full. snd (buildMarketOrders env params side) = Inr (otf, amts, full)
             \<longrightarrow> set otf \<subseteq> rawOrder ` set (orders params))"
proof -
  have after: "after = sortedOrders_of side (orders params)"
    by (simp add: after_def fst_buildMarketOrders)
  have "set otf \<subseteq> rawOrder ` set (orders params)"
    if "snd (buildMarketOrders env params side) = Inr (otf, amts, full)" for otf amts full
  proof -
    from that obtain st where st: "run_fill env params side = Inr st" and otf: "otf = ordersToFill st"
      by (auto simp: buildMarketOrders_def split: sum.splits)
    have "\<exists>k\<le>length (sortedOrders_of side (orders params)).
            ordersToFill st = map rawOrder (take k (sortedOrders_of side (orders params)))"
      using st unfolding run_fill_def
      by (rule fill_loop_prefix) (simp_all add: initial_state_def)
    then obtain k where "otf = map rawOrder (take k (sortedOrders_of side (orders params)))"
      using otf by blast
    then have "set otf \<subseteq> rawOrder ` set (sortedOrders_of side (orders params))"
      by (auto dest: in_set_takeD)
    then show ?thesis by (simp add: set_sortedOrders_of)
  qed
  moreover have "after = orders params
            \<longleftrightarrow> sorted_wrt (\<lambda>a b. no_worse side (price a) (price b)) (orders params)"
    using sorted_sortedOrders_of [of side "orders params"] sortedOrders_of_id [of side "orders params"]
    by (auto simp: after)
  ultimately show ?thesis
    by (simp add: after mset_sortedOrders_of sorted_sortedOrders_of stable_sortedOrders_of)
qed

theorem C5_sorts_in_place_witness:
  "mset (fst (buildMarketOrders demo_env (demo_params 100) Buy)) = mset (orders (demo_params 100))
   \<and> fst (buildMarketOrders demo_env (demo_params 100) Buy) \<noteq> orders (demo_params 100)
   \<and> \<not> sorted_wrt (\<lambda>a b. no_worse Buy (price a) (price b)) (orders (demo_params 100))"
proof -
  have "\<not> sorted_wrt (\<lambda>a b. no_worse Buy (price a) (price b)) (orders (demo_params 100))"
    by (simp add: demo_defs no_worse_def)
  then show ?thesis
    using C5_sorts_in_place [of demo_env "demo_params 100" Buy] by blast
qed

text \<open>
  C8 (edge cases). With no candidate the allocator returns the empty plan, and the flag says
  whether the requested amount is zero; with the requested amount zero it returns the
  empty plan and the flag true, whatever the candidates.
\<close>

theorem C8_edge_cases:
  "(orders params = [] \<longrightarrow>
      buildMarketOrders env params side = ([], Inr ([], [], amount params = 0)))
   \<and> (amount params = 0 \<longrightarrow>
      snd (buildMarketOrders env params side) = Inr ([], [], True))"
  by (auto simp: buildMarketOrders_def run_fill_def sortedOrders_of_def js_sort_def
      initial_state_def fill_loop.simps)

theorem C8_edge_cases_witness:
  "orders \<lparr>amount = 10, orders = []\<rparr> = []
   \<and> buildMarketOrders demo_env \<lparr>amount = 10, orders = []\<rparr> Sell = ([], Inr ([], [], False))
   \<and> amount (demo_params 0) = 0
   \<and> snd (buildMarketOrders demo_env (demo_params 0) Buy) = Inr ([], [], True)"
  using C8_edge_cases [of "\<lparr>amount = 10, orders = []\<rparr>" demo_env Sell]
    C8_edge_cases [of "demo_params 0" demo_env Buy]
  by (simp add: demo_params_def)

section \<open>The valuator\<close>

text \<open>
  C7 (errors of the valuator). The valuator fails exactly when the two arrays differ in
  length, the failure is the error of line 167 and no other, and there is then no result;
  on two empty arrays it returns zero, for either side.
\<close>

theorem C7_valuator_errors:
  fixes otf :: "'a Order_scheme list"
  shows "(sumTakerAssetFillableOrders dp side otf amts = Inl InvalidArgument
            \<longleftrightarrow> length otf \<noteq> length amts)
       \<and> (\<forall>e. sumTakerAssetFillableOrders dp side otf amts = Inl e \<longrightarrow> e = InvalidArgument)
       \<and> sumTakerAssetFillableOrders dp side ([] :: 'a Order_scheme list) [] = Inr (Some 0)"
proof -
  have "\<exists>r. sumTakerAssetFillableOrders dp side otf amts = Inr r" if "length otf = length amts"
    using that reduce_orders_returns [of 0 otf amts dp side "Some 0"]
    by (auto simp: sumTakerAssetFillableOrders_def)
  moreover have "sumTakerAssetFillableOrders dp side otf amts = Inl InvalidArgument"
    if "length otf \<noteq> length amts"
    using that by (simp add: sumTakerAssetFillableOrders_def)
  ultimately show ?thesis
    by (auto simp: sumTakerAssetFillableOrders_def)
qed

theorem C7_valuator_errors_witness:
  "length [demo_order ''a''] \<noteq> length [1, 2 :: rat]
   \<and> sumTakerAssetFillableOrders 2 Sell [demo_order ''a''] [1, 2] = Inl InvalidArgument
   \<and> sumTakerAssetFillableOrders 2 Sell [demo_order ''a'', demo_order ''b''] [1, 2]
       \<noteq> Inl InvalidArgument
   \<and> sumTakerAssetFillableOrders 2 Buy ([] :: SignedOrder list) [] = Inr (Some 0)"
  using C7_valuator_errors [of 2 Sell "[demo_order ''a'']" "[1, 2]"]
    C7_valuator_errors [of 2 Sell "[demo_order ''a'', demo_order ''b'']" "[1, 2]"]
    C7_valuator_errors [of 2 Buy "[] :: SignedOrder list" "[]"]
  by simp

text \<open>
  C9 (valuation of the Buy side). On the Buy side the valuator returns the sum of the
  amounts when the two arrays have one length, and the error otherwise: no field of an
  order enters the result, and a zero \<open>takerAssetAmount\<close> is harmless, the quotient being
  computed on the Sell side only.
\<close>

theorem C9_buy_valuation:
  "sumTakerAssetFillableOrders dp Buy otf amts
     = (if length otf = length amts then Inr (Some (sum_list amts)) else Inl InvalidArgument)"
  using reduce_orders_Buy [of 0 otf amts dp 0]
  by (auto simp: sumTakerAssetFillableOrders_def)

theorem C9_buy_valuation_witness:
  "sumTakerAssetFillableOrders 2 Buy
     [(demo_order ''a'')\<lparr>takerAssetAmount := 0\<rparr>, demo_order ''b''] [1, 7] = Inr (Some 8)
   \<and> sumTakerAssetFillableOrders 2 Sell
     [(demo_order ''a'')\<lparr>takerAssetAmount := 0\<rparr>, demo_order ''b''] [1, 7] = Inr None"
proof -
  have "sumTakerAssetFillableOrders 2 Sell
     [(demo_order ''a'')\<lparr>takerAssetAmount := 0\<rparr>, demo_order ''b''] [1, 7] = Inr None"
    by (simp add: sumTakerAssetFillableOrders_def bn_div_def bn_plus_def bn_multipliedBy_def
        demo_order_def)
  then show ?thesis
    using C9_buy_valuation [of 2 "[(demo_order ''a'')\<lparr>takerAssetAmount := 0\<rparr>, demo_order ''b'']" "[1, 7]"]
    by simp
qed

section \<open>The fee and the classifier\<close>

text \<open>
  C6 (fee). For an array of orders, whose length is below \<open>2 ^ 32\<close> as that of every array
  is, and a multiplier of at most \<open>2 ^ 21\<close>, the fee is the number of orders times the
  multiplier times the gas price, exactly: the product of the first two stays within the
  integers that a number of JavaScript holds exactly.
\<close>

theorem C6_fee_exact:
  assumes "length orders' < 2 ^ 32" and "PROTOCOL_FEE_MULTIPLIER \<le> 2 ^ 21"
  shows "calculateWorstCaseProtocolFee PROTOCOL_FEE_MULTIPLIER orders' gasPrice
           = Some (of_nat (length orders') * of_nat PROTOCOL_FEE_MULTIPLIER * gasPrice)"
  using number_times_exact [OF assms]
  by (simp add: calculateWorstCaseProtocolFee_def)

theorem C6_fee_exact_witness:
  "length [demo_order ''a'', demo_order ''b'', demo_order ''c''] < 2 ^ 32
   \<and> (150000 :: nat) \<le> 2 ^ 21
   \<and> calculateWorstCaseProtocolFee 150000 [demo_order ''a'', demo_order ''b'', demo_order ''c'']
         (10 ^ 9) = Some 450000000000000"
proof -
  have len: "length [demo_order ''a'', demo_order ''b'', demo_order ''c''] < 2 ^ 32"
    by simp
  have mult: "(150000 :: nat) \<le> 2 ^ 21"
    by simp
  show ?thesis
    using C6_fee_exact [OF len mult, of "10 ^ 9"] by simp
qed

text \<open>C10 (classifier). \<open>isDutchAuction\<close> is false of every order.\<close>

theorem C10_never_auction: "isDutchAuction order = False"
  by (simp add: isDutchAuction_def)

theorem C10_never_auction_witness: "isDutchAuction (demo_order ''s'') = False"
  using C10_never_auction [of "demo_order ''s''"] .

end
